theory Spec2Isabelle
  imports Main "HOL-Library.Sublist" "HOL-Library.AList"
begin

section \<open>Strings and paths\<close>

text \<open>
  Python strings are modelled as \<^typ>\<open>string\<close>. Paths follow \<^verbatim>\<open>posixpath\<close>: the
  separator is \<^verbatim>\<open>/\<close> and the extension separator is \<^verbatim>\<open>.\<close>.
\<close>

text \<open>\<^verbatim>\<open>str(n)\<close> for a non-negative integer: decimal digits, no leading zero.\<close>

definition digit_char :: "nat \<Rightarrow> char" where
  "digit_char d = char_of (48 + d)"

fun str_nat :: "nat \<Rightarrow> string" where
  "str_nat n = (if n < 10 then [digit_char n] else str_nat (n div 10) @ [digit_char (n mod 10)])"

declare str_nat.simps [simp del]

text \<open>\<^verbatim>\<open>s.rfind(c)\<close>: the highest index holding \<open>c\<close>, or \<open>-1\<close>.\<close>

definition rfind :: "char \<Rightarrow> string \<Rightarrow> int" where
  "rfind c s =
     (case List.find (\<lambda>i. s ! i = c) (rev [0..<length s]) of
        None \<Rightarrow> - 1
      | Some i \<Rightarrow> int i)"

text \<open>
  \<^verbatim>\<open>os.path.splitext\<close> (\<^verbatim>\<open>genericpath._splitext\<close>): the extension starts at the last
  dot of the last path component, unless only dots precede it in that component.
  \<open>splitext_loop\<close> is the library's \<^verbatim>\<open>while filenameIndex < dotIndex\<close> loop.
\<close>

function splitext_loop :: "string \<Rightarrow> nat \<Rightarrow> nat \<Rightarrow> string \<times> string" where
  "splitext_loop p filenameIndex dotIndex =
     (if filenameIndex < dotIndex then
        (if p ! filenameIndex \<noteq> CHR ''.'' then (take dotIndex p, drop dotIndex p)
         else splitext_loop p (filenameIndex + 1) dotIndex)
      else (p, []))"
  by pat_completeness auto
termination
  by (relation "measure (\<lambda>(p, filenameIndex, dotIndex). dotIndex - filenameIndex)") auto

declare splitext_loop.simps [simp del]

definition splitext :: "string \<Rightarrow> string \<times> string" where
  "splitext p =
     (let sepIndex = rfind CHR ''/'' p;
          dotIndex = rfind CHR ''.'' p
      in if dotIndex > sepIndex then splitext_loop p (nat (sepIndex + 1)) (nat dotIndex)
         else (p, []))"

text \<open>Python's slice \<^verbatim>\<open>xs[:k]\<close>; a negative \<open>k\<close> counts from the end.\<close>

definition slice_to :: "'a list \<Rightarrow> int \<Rightarrow> 'a list" where
  "slice_to xs k = (if 0 \<le> k then take (nat k) xs else take (nat (int (length xs) + k)) xs)"

section \<open>\<^verbatim>\<open>sanitize_filename\<close>\<close>

text \<open>\<^verbatim>\<open>"-_.() %s%s" % (string.ascii_letters, string.digits)\<close>\<close>

definition valid_chars :: string where
  "valid_chars = ''-_.() abcdefghijklmnopqrstuvwxyzABCDEFGHIJKLMNOPQRSTUVWXYZ0123456789''"

definition sanitize_filename :: "string \<Rightarrow> int \<Rightarrow> string" where
  "sanitize_filename filename max_length =
     (let filename' = filter (\<lambda>c. c \<in> set valid_chars) filename;
          (name, ext) = splitext filename'
      in if int (length filename') > max_length
         then slice_to name (max_length - int (length ext)) @ ext
         else filename')"

text \<open>\<^verbatim>\<open>posixpath.join(a, b)\<close> and \<^verbatim>\<open>posixpath.basename(p)\<close>.\<close>

definition join :: "string \<Rightarrow> string \<Rightarrow> string" where
  "join a b =
     (if prefix ''/'' b then b
      else if a = [] \<or> last a = CHR ''/'' then a @ b
      else a @ ''/'' @ b)"

definition basename :: "string \<Rightarrow> string" where
  "basename p = drop (nat (rfind CHR ''/'' p + 1)) p"

text \<open>
  \<^verbatim>\<open>str.lower\<close> on the ASCII letters. The result is only tested against the ASCII
  prefixes \<^verbatim>\<open>mailto:\<close>, \<^verbatim>\<open>http://\<close> and \<^verbatim>\<open>https://\<close>.
\<close>

definition lower_char :: "char \<Rightarrow> char" where
  "lower_char c =
     (if 65 \<le> (of_char c :: nat) \<and> (of_char c :: nat) \<le> 90 then char_of ((of_char c :: nat) + 32)
      else c)"

definition lower :: "string \<Rightarrow> string" where
  "lower s = map lower_char s"

text \<open>\<^verbatim>\<open>pat in s\<close> for strings: \<open>pat\<close> occurs as a contiguous block of \<open>s\<close>.\<close>

fun contains :: "string \<Rightarrow> string \<Rightarrow> bool" where
  "contains pat [] = (pat = [])"
| "contains pat (c # cs) = (prefix pat (c # cs) \<or> contains pat cs)"

text \<open>\<^verbatim>\<open>str.isspace\<close> on the code points below 256, and \<^verbatim>\<open>s.strip()\<close>, \<^verbatim>\<open>s.strip('"')\<close>.\<close>

definition isspace :: "char \<Rightarrow> bool" where
  "isspace c = ((of_char c :: nat) \<in> {9, 10, 11, 12, 13, 28, 29, 30, 31, 32, 133, 160})"

definition strip_with :: "(char \<Rightarrow> bool) \<Rightarrow> string \<Rightarrow> string" where
  "strip_with P s = rev (dropWhile P (rev (dropWhile P s)))"

section \<open>The environment of a run\<close>

text \<open>
  A failed-download entry is the dictionary the downloader appends: the keys
  \<^verbatim>\<open>link\<close>, \<^verbatim>\<open>status_code\<close>, \<^verbatim>\<open>error\<close> are set on creation, \<^verbatim>\<open>pdf_file\<close> and
  \<^verbatim>\<open>attachments_folder\<close> are absent (\<open>None\<close>) until the driver adds them.
\<close>

record failure =
  link :: string
  status_code :: "nat option"
  error :: string
  pdf_file :: "string option"
  attachments_folder :: "string option"

record summary_row =
  file_number :: nat
  file_name :: string
  attachments_count :: int

text \<open>
  The file system is an association list from paths to nodes, looked up by the literal
  path string. A CSV report is represented by the rows handed to \<^verbatim>\<open>to_csv\<close>.
\<close>

datatype content = Bytes string | SummaryCsv "summary_row list" | FailedCsv "failure list"

datatype node = File content | Dir

type_synonym filesystem = "(string \<times> node) list"

definition path_exists :: "filesystem \<Rightarrow> string \<Rightarrow> bool" where
  "path_exists fs p = (map_of fs p \<noteq> None)"

definition isdir :: "filesystem \<Rightarrow> string \<Rightarrow> bool" where
  "isdir fs p = (map_of fs p = Some Dir)"

text \<open>
  What \<^verbatim>\<open>requests.get(link, stream=True, timeout=15)\<close> gives: an exception with its
  message, or a response with its status, the two headers the downloader reads, and
  the body as the chunks \<^verbatim>\<open>iter_content\<close> yields, possibly cut short by an exception.
\<close>

record response =
  status :: nat
  content_disposition :: "string option"
  content_type :: "string option"
  chunks :: "string list"
  stream_error :: "string option"

datatype get_result = Raised string | Returned response

text \<open>A link annotation as \<^verbatim>\<open>page.get_links()\<close> returns it; \<open>uri\<close> is \<^verbatim>\<open>link.get("uri")\<close>.\<close>

record annotation =
  kind :: nat
  uri :: "string option"

text \<open>
  Everything outside the program is a parameter: the network (a response may depend on
  the requests made so far), failures of \<^verbatim>\<open>open(path, 'wb')\<close> and \<^verbatim>\<open>os.rename\<close>,
  PyMuPDF (\<open>Inl\<close> is the message of the exception \<^verbatim>\<open>fitz.open\<close> raises), \<^verbatim>\<open>glob.glob\<close>,
  \<^verbatim>\<open>mimetypes.guess_extension\<close>, the composition
  \<^verbatim>\<open>unquote(basename(urlparse(link).path))\<close>, and \<^verbatim>\<open>str.isalnum\<close> beyond ASCII.
  Directory creation and the two report writes are taken to succeed.
\<close>

record env =
  http_get :: "string list \<Rightarrow> string \<Rightarrow> get_result"
  open_error :: "filesystem \<Rightarrow> string \<Rightarrow> string option"
  rename_error :: "filesystem \<Rightarrow> string \<Rightarrow> string \<Rightarrow> string option"
  fitz_open :: "string \<Rightarrow> string + annotation list list"
  glob :: "filesystem \<Rightarrow> string \<Rightarrow> string list"
  guess_extension :: "string \<Rightarrow> string option"
  url_filename :: "string \<Rightarrow> string"
  isalnum_non_ascii :: "char \<Rightarrow> bool"

text \<open>The mutable world: the files on disk and the log of GET requests issued.\<close>

record state =
  files :: filesystem
  requests :: "string list"

definition isalnum :: "env \<Rightarrow> char \<Rightarrow> bool" where
  "isalnum e c =
     (let n = (of_char c :: nat)
      in (48 \<le> n \<and> n \<le> 57) \<or> (65 \<le> n \<and> n \<le> 90) \<or> (97 \<le> n \<and> n \<le> 122)
         \<or> (128 \<le> n \<and> isalnum_non_ascii e c))"

section \<open>\<^verbatim>\<open>extract_hyperlinks_from_pdf\<close>\<close>

fun page_links :: "annotation list \<Rightarrow> string list \<Rightarrow> string list" where
  "page_links [] links = links"
| "page_links (a # as) links =
     page_links as (case uri a of
                      None \<Rightarrow> links
                    | Some u \<Rightarrow> if u \<noteq> [] then links @ [u] else links)"

fun doc_links :: "annotation list list \<Rightarrow> string list \<Rightarrow> string list" where
  "doc_links [] links = links"
| "doc_links (page # pages) links = doc_links pages (page_links page links)"

definition extract_hyperlinks_from_pdf :: "env \<Rightarrow> string \<Rightarrow> string + string list" where
  "extract_hyperlinks_from_pdf e pdf_path =
     (case fitz_open e pdf_path of
        Inl msg \<Rightarrow> Inl msg
      | Inr doc \<Rightarrow> Inr (doc_links doc []))"

text \<open>
  An annotation has a URI target when \<^verbatim>\<open>link.get("uri")\<close> is truthy: the key is present
  and its value is not the empty string.
\<close>

definition has_uri_target :: "annotation \<Rightarrow> bool" where
  "has_uri_target a = (case uri a of None \<Rightarrow> False | Some u \<Rightarrow> u \<noteq> [])"

section \<open>\<^verbatim>\<open>download_files_from_links\<close>\<close>

definition is_mailto :: "string \<Rightarrow> bool" where
  "is_mailto lnk = prefix ''mailto:'' (lower lnk)"

definition is_http :: "string \<Rightarrow> bool" where
  "is_http lnk = (prefix ''http://'' (lower lnk) \<or> prefix ''https://'' (lower lnk))"

text \<open>
  \<^verbatim>\<open>re.findall("filename=(.+)", s)[0]\<close>: the group of the leftmost match, or \<open>None\<close>
  where the list is empty and the index raises \<^verbatim>\<open>IndexError\<close>. The dot matches
  anything but a newline.
\<close>

fun findall_first :: "string \<Rightarrow> string option" where
  "findall_first [] = None"
| "findall_first (c # cs) =
     (let grp = takeWhile (\<lambda>x. x \<noteq> CHR 0x0A) (drop 9 (c # cs))
      in if prefix ''filename='' (c # cs) \<and> grp \<noteq> [] then Some grp else findall_first cs)"

text \<open>
  The name a 200 response is saved under, before collisions are resolved: the
  \<^verbatim>\<open>Content-Disposition\<close> file name, else the URL's base name if it has a dot, else
  \<^verbatim>\<open>file_<i>\<close> with a guessed extension; then the characters that are neither
  alphanumeric nor one of \<^verbatim>\<open>._- \<close> are dropped. \<open>Inl\<close> is the message of the exception.
\<close>

definition header_filename :: "response \<Rightarrow> string + string option" where
  "header_filename r =
     (case content_disposition r of
        None \<Rightarrow> Inr None
      | Some cd \<Rightarrow>
          if cd \<noteq> [] \<and> contains ''filename='' cd then
            (case findall_first cd of
               None \<Rightarrow> Inl ''list index out of range''
             | Some grp \<Rightarrow> Inr (Some (strip_with (\<lambda>c. c = CHR 0x22) grp)))
          else Inr None)"

definition fallback_filename :: "env \<Rightarrow> nat \<Rightarrow> string \<Rightarrow> response \<Rightarrow> string" where
  "fallback_filename e i lnk r =
     (let ctype = strip_with isspace
                    (takeWhile (\<lambda>c. c \<noteq> CHR '';'')
                       (case content_type r of None \<Rightarrow> [] | Some t \<Rightarrow> t));
          ext = (if ctype \<noteq> [] then
                   (case guess_extension e ctype of
                      None \<Rightarrow> []
                    | Some g \<Rightarrow> g)
                 else []);
          name = url_filename e lnk
      in if name \<noteq> [] \<and> CHR ''.'' \<in> set name then name
         else ''file_'' @ str_nat i @ ext)"

definition saved_filename :: "env \<Rightarrow> nat \<Rightarrow> string \<Rightarrow> response \<Rightarrow> string + string" where
  "saved_filename e i lnk r =
     (case header_filename r of
        Inl msg \<Rightarrow> Inl msg
      | Inr found \<Rightarrow>
          let filename = (case found of
                            None \<Rightarrow> fallback_filename e i lnk r
                          | Some n \<Rightarrow> if n \<noteq> [] then n else fallback_filename e i lnk r)
          in Inr (filter (\<lambda>c. isalnum e c \<or> c \<in> set ''._- '') filename))"

text \<open>
  The loop \<^verbatim>\<open>while os.path.exists(p): p = f"{base}_{counter}{ext}"; counter += 1\<close>,
  used for download targets and for the renamed folder.
\<close>

function next_free :: "filesystem \<Rightarrow> string \<Rightarrow> string \<Rightarrow> nat \<Rightarrow> string \<Rightarrow> string" where
  "next_free fs base ext counter p =
     (if path_exists fs p then next_free fs base ext (counter + 1) (base @ ''_'' @ str_nat counter @ ext)
      else p)"
  by pat_completeness auto

definition target_path :: "filesystem \<Rightarrow> string \<Rightarrow> string \<Rightarrow> string" where
  "target_path fs download_folder filename =
     (let file_path = join download_folder filename;
          (base, ext) = splitext file_path
      in next_free fs base ext 1 file_path)"

text \<open>
  The branch for status 200: resolve the name, find a free path, open it and stream the
  body into it. The second component is the message of an exception raised on the way.
\<close>

definition save_response :: "env \<Rightarrow> string \<Rightarrow> nat \<Rightarrow> string \<Rightarrow> response \<Rightarrow> state \<Rightarrow> state \<times> string option" where
  "save_response e download_folder i lnk r st =
     (case saved_filename e i lnk r of
        Inl msg \<Rightarrow> (st, Some msg)
      | Inr filename \<Rightarrow>
          let file_path = target_path (files st) download_folder filename
          in case open_error e (files st) file_path of
               Some msg \<Rightarrow> (st, Some msg)
             | None \<Rightarrow>
                 (st\<lparr>files := AList.update file_path (File (Bytes (concat (chunks r)))) (files st)\<rparr>,
                  stream_error r))"

definition failed_entry :: "string \<Rightarrow> nat option \<Rightarrow> string \<Rightarrow> failure" where
  "failed_entry lnk code msg =
     \<lparr>link = lnk, status_code = code, error = msg, pdf_file = None, attachments_folder = None\<rparr>"

text \<open>One iteration of the loop over \<^verbatim>\<open>enumerate(links)\<close> in \<^verbatim>\<open>attachment_downloader.py\<close>.\<close>

definition download_link :: "env \<Rightarrow> string \<Rightarrow> nat \<Rightarrow> string \<Rightarrow> state \<times> failure list \<Rightarrow> state \<times> failure list" where
  "download_link e download_folder i lnk acc =
     (case acc of (st, failed_downloads) \<Rightarrow>
        if is_mailto lnk then (st, failed_downloads)
        else if \<not> is_http lnk then (st, failed_downloads)
        else
          let st1 = st\<lparr>requests := requests st @ [lnk]\<rparr>
          in case http_get e (requests st) lnk of
               Raised msg \<Rightarrow> (st1, failed_downloads @ [failed_entry lnk None msg])
             | Returned r \<Rightarrow>
                 if status r = 200 then
                   (case save_response e download_folder i lnk r st1 of
                      (st2, None) \<Rightarrow> (st2, failed_downloads)
                    | (st2, Some msg) \<Rightarrow> (st2, failed_downloads @ [failed_entry lnk None msg]))
                 else
                   (st1, failed_downloads
                           @ [failed_entry lnk (Some (status r)) (''Status '' @ str_nat (status r))]))"

fun download_loop :: "env \<Rightarrow> string \<Rightarrow> nat \<Rightarrow> string list \<Rightarrow> state \<times> failure list \<Rightarrow> state \<times> failure list" where
  "download_loop e download_folder i [] acc = acc"
| "download_loop e download_folder i (lnk # links) acc =
     download_loop e download_folder (i + 1) links (download_link e download_folder i lnk acc)"

definition makedirs :: "string \<Rightarrow> state \<Rightarrow> state" where
  "makedirs p st = (if path_exists (files st) p then st else st\<lparr>files := AList.update p Dir (files st)\<rparr>)"

definition download_files_from_links :: "env \<Rightarrow> string list \<Rightarrow> string \<Rightarrow> state \<Rightarrow> state \<times> failure list" where
  "download_files_from_links e links download_folder st =
     download_loop e download_folder 0 links (makedirs download_folder st, [])"

text \<open>
  The variant in \<^verbatim>\<open>attachment_downloader copy.py\<close>: the same loop, except that a 401
  response is printed and not appended.
\<close>

definition download_link_copy :: "env \<Rightarrow> string \<Rightarrow> nat \<Rightarrow> string \<Rightarrow> state \<times> failure list \<Rightarrow> state \<times> failure list" where
  "download_link_copy e download_folder i lnk acc =
     (case acc of (st, failed_downloads) \<Rightarrow>
        if is_mailto lnk then (st, failed_downloads)
        else if \<not> is_http lnk then (st, failed_downloads)
        else
          let st1 = st\<lparr>requests := requests st @ [lnk]\<rparr>
          in case http_get e (requests st) lnk of
               Raised msg \<Rightarrow> (st1, failed_downloads @ [failed_entry lnk None msg])
             | Returned r \<Rightarrow>
                 if status r = 200 then
                   (case save_response e download_folder i lnk r st1 of
                      (st2, None) \<Rightarrow> (st2, failed_downloads)
                    | (st2, Some msg) \<Rightarrow> (st2, failed_downloads @ [failed_entry lnk None msg]))
                 else if status r = 401 then (st1, failed_downloads)
                 else
                   (st1, failed_downloads
                           @ [failed_entry lnk (Some (status r)) (''Status '' @ str_nat (status r))]))"

fun download_loop_copy :: "env \<Rightarrow> string \<Rightarrow> nat \<Rightarrow> string list \<Rightarrow> state \<times> failure list \<Rightarrow> state \<times> failure list" where
  "download_loop_copy e download_folder i [] acc = acc"
| "download_loop_copy e download_folder i (lnk # links) acc =
     download_loop_copy e download_folder (i + 1) links (download_link_copy e download_folder i lnk acc)"

definition download_files_from_links_copy :: "env \<Rightarrow> string list \<Rightarrow> string \<Rightarrow> state \<Rightarrow> state \<times> failure list" where
  "download_files_from_links_copy e links download_folder st =
     download_loop_copy e download_folder 0 links (makedirs download_folder st, [])"

section \<open>\<^verbatim>\<open>process_pdf_folder\<close>\<close>

text \<open>\<^verbatim>\<open>os.rename(src, dst)\<close> of a directory moves every path at or below \<open>src\<close>.\<close>

definition moved :: "string \<Rightarrow> string \<Rightarrow> string \<Rightarrow> string" where
  "moved src dst p =
     (if p = src then dst
      else if prefix (src @ ''/'') p then dst @ drop (length src) p
      else p)"

definition os_rename :: "env \<Rightarrow> string \<Rightarrow> string \<Rightarrow> state \<Rightarrow> string + state" where
  "os_rename e src dst st =
     (case rename_error e (files st) src dst of
        Some msg \<Rightarrow> Inl msg
      | None \<Rightarrow> Inr (st\<lparr>files := map (\<lambda>(p, n). (moved src dst p, n)) (files st)\<rparr>))"

definition tag :: "string \<Rightarrow> string \<Rightarrow> failure \<Rightarrow> failure" where
  "tag pdf_basename folder f = f\<lparr>pdf_file := Some pdf_basename, attachments_folder := Some folder\<rparr>"

text \<open>
  The inner \<^verbatim>\<open>try\<close> of the driver (lines 188 to 220): rename the positional subfolder
  to the sanitized document name and stamp the document's failure entries with the
  folder they belong to.
\<close>

definition rename_target :: "filesystem \<Rightarrow> string \<Rightarrow> nat \<Rightarrow> string \<Rightarrow> string" where
  "rename_target fs destination_folder i pdf_basename =
     (let pdf_name_no_ext = fst (splitext pdf_basename);
          sanitized = sanitize_filename pdf_name_no_ext 80;
          safe_name = (if sanitized \<noteq> [] then sanitized else ''pdf_'' @ str_nat (i + 1));
          base_target = join destination_folder safe_name
      in next_free fs base_target [] 1 base_target)"

definition rename_folder :: "env \<Rightarrow> string \<Rightarrow> nat \<Rightarrow> string \<Rightarrow> string \<Rightarrow> state \<Rightarrow> failure list \<Rightarrow> state \<times> failure list" where
  "rename_folder e destination_folder i pdf_basename attachments_subfolder st failed =
     (if isdir (files st) attachments_subfolder then
        let target_folder = rename_target (files st) destination_folder i pdf_basename
        in if attachments_subfolder \<noteq> target_folder then
             (case os_rename e attachments_subfolder target_folder st of
                Inl msg \<Rightarrow> (st, map (tag pdf_basename attachments_subfolder) failed)
              | Inr st' \<Rightarrow> (st', map (tag pdf_basename target_folder) failed))
           else (st, map (tag pdf_basename target_folder) failed)
      else (st, map (tag pdf_basename (join destination_folder (''pdf_'' @ str_nat (i + 1)))) failed))"

text \<open>The body of the loop over \<^verbatim>\<open>enumerate(pdf_files)\<close>.\<close>

definition process_pdf :: "env \<Rightarrow> string \<Rightarrow> nat \<Rightarrow> string \<Rightarrow> state \<times> summary_row list \<times> failure list \<Rightarrow> state \<times> summary_row list \<times> failure list" where
  "process_pdf e destination_folder i pdf acc =
     (case acc of (st, file_summary, all_failed_downloads) \<Rightarrow>
        if \<not> path_exists (files st) pdf then (st, file_summary, all_failed_downloads)
        else
          let pdf_basename = basename pdf
          in case extract_hyperlinks_from_pdf e pdf of
               Inl msg \<Rightarrow>
                 (st,
                  file_summary @ [\<lparr>file_number = i + 1, file_name = pdf_basename, attachments_count = 0\<rparr>],
                  all_failed_downloads)
             | Inr hyperlinks \<Rightarrow>
                 if hyperlinks \<noteq> [] then
                   let attachments_subfolder = join destination_folder (''pdf_'' @ str_nat (i + 1));
                       (st1, failed) = download_files_from_links e hyperlinks attachments_subfolder st;
                       successful_downloads = int (length hyperlinks) - int (length failed);
                       (st2, failed') = rename_folder e destination_folder i pdf_basename
                                          attachments_subfolder st1 failed
                   in (st2,
                       file_summary @ [\<lparr>file_number = i + 1, file_name = pdf_basename,
                                        attachments_count = successful_downloads\<rparr>],
                       all_failed_downloads @ failed')
                 else
                   (st,
                    file_summary @ [\<lparr>file_number = i + 1, file_name = pdf_basename, attachments_count = 0\<rparr>],
                    all_failed_downloads))"

fun process_loop :: "env \<Rightarrow> string \<Rightarrow> nat \<Rightarrow> string list \<Rightarrow> state \<times> summary_row list \<times> failure list \<Rightarrow> state \<times> summary_row list \<times> failure list" where
  "process_loop e destination_folder i [] acc = acc"
| "process_loop e destination_folder i (pdf # pdfs) acc =
     process_loop e destination_folder (i + 1) pdfs (process_pdf e destination_folder i pdf acc)"

text \<open>The report phase (lines 240 to 256).\<close>

definition write_file :: "string \<Rightarrow> content \<Rightarrow> state \<Rightarrow> state" where
  "write_file p c st = st\<lparr>files := AList.update p (File c) (files st)\<rparr>"

definition write_reports :: "string \<Rightarrow> state \<times> summary_row list \<times> failure list \<Rightarrow> state" where
  "write_reports destination_folder acc =
     (case acc of (st, file_summary, all_failed_downloads) \<Rightarrow>
        let summary_csv = join destination_folder ''file_summary.csv'';
            st1 = write_file summary_csv (SummaryCsv file_summary) st
        in if all_failed_downloads \<noteq> [] then
             write_file (join destination_folder ''failed_downloads.csv'')
               (FailedCsv all_failed_downloads) st1
           else st1)"

definition makedirs_exist_ok :: "string \<Rightarrow> state \<Rightarrow> state" where
  "makedirs_exist_ok p st = makedirs p st"

definition process_pdf_folder :: "env \<Rightarrow> string \<Rightarrow> string \<Rightarrow> state \<Rightarrow> state" where
  "process_pdf_folder e source_folder destination_folder st =
     (let st0 = makedirs_exist_ok destination_folder st;
          pdf_files = glob e (files st0) (join source_folder ''*.pdf'')
      in if pdf_files = [] then st0
         else write_reports destination_folder
                (process_loop e destination_folder 0 pdf_files (st0, [], [])))"

section \<open>Properties of the path helpers\<close>

lemma splitext_loop_append: "fst (splitext_loop p i d) @ snd (splitext_loop p i d) = p"
proof (induction p i d rule: splitext_loop.induct)
  case (1 p i d)
  then show ?case
    by (subst (1 2) splitext_loop.simps) simp
qed

lemma splitext_append: "fst (splitext p) @ snd (splitext p) = p"
  by (simp add: splitext_def Let_def splitext_loop_append)

lemma splitext_cases:
  obtains name ext where "splitext p = (name, ext)" and "name @ ext = p"
  using splitext_append [of p] by (cases "splitext p") auto

lemma length_slice_to: "0 \<le> k \<Longrightarrow> int (length (slice_to xs k)) \<le> k"
  by (simp add: slice_to_def)

lemma set_slice_to: "set (slice_to xs k) \<subseteq> set xs"
  by (auto simp: slice_to_def dest: in_set_takeD)

section \<open>Termination of the free-name search\<close>

lemma str_nat_nonempty: "str_nat n \<noteq> []"
  by (subst str_nat.simps) simp

lemma digit_char_inj: "a < 10 \<Longrightarrow> b < 10 \<Longrightarrow> digit_char a = digit_char b \<Longrightarrow> a = b"
  by (simp add: digit_char_def)

lemma str_nat_inj: "str_nat n = str_nat m \<Longrightarrow> n = m"
proof (induction n arbitrary: m rule: str_nat.induct)
  case (1 n)
  show ?case
  proof (cases "n < 10")
    case small_n: True
    show ?thesis
    proof (cases "m < 10")
      case True
      with small_n "1.prems" show ?thesis
        by (simp add: str_nat.simps [of n] str_nat.simps [of m] digit_char_inj)
    next
      case False
      with small_n "1.prems" str_nat_nonempty [of "m div 10"] show ?thesis
        by (simp add: str_nat.simps [of n] str_nat.simps [of m] Cons_eq_append_conv)
    qed
  next
    case big_n: False
    show ?thesis
    proof (cases "m < 10")
      case True
      with big_n "1.prems" str_nat_nonempty [of "n div 10"] show ?thesis
        by (simp add: str_nat.simps [of n] str_nat.simps [of m] append_eq_Cons_conv)
    next
      case False
      with big_n "1.prems" have hd: "str_nat (n div 10) = str_nat (m div 10)"
        and tl: "digit_char (n mod 10) = digit_char (m mod 10)"
        by (simp_all add: str_nat.simps [of n] str_nat.simps [of m])
      from "1.IH" [OF big_n hd] have "n div 10 = m div 10" .
      moreover from tl have "n mod 10 = m mod 10"
        by (intro digit_char_inj) simp_all
      ultimately show ?thesis
        by (metis div_mult_mod_eq)
    qed
  qed
qed

lemma finite_candidates: "finite {k. path_exists fs (base @ ''_'' @ str_nat k @ ext)}"
proof -
  have "inj (\<lambda>k. base @ ''_'' @ str_nat k @ ext)"
    by (auto simp: inj_def dest: str_nat_inj)
  then have "finite ((\<lambda>k. base @ ''_'' @ str_nat k @ ext) -` (fst ` set fs))"
    by (intro finite_vimageI) simp_all
  moreover have "{k. path_exists fs (base @ ''_'' @ str_nat k @ ext)}
                 \<subseteq> (\<lambda>k. base @ ''_'' @ str_nat k @ ext) -` (fst ` set fs)"
    by (auto simp: path_exists_def map_of_eq_None_iff)
  ultimately show ?thesis
    by (rule rev_finite_subset)
qed

lemma card_from_step:
  fixes c :: nat
  assumes "finite {k. P k}"
  shows "card {k. Suc c \<le> k \<and> P k} + (if P c then 1 else 0) = card {k. c \<le> k \<and> P k}"
proof -
  have fin: "finite {k. Suc c \<le> k \<and> P k}"
    using assms by (rule rev_finite_subset) auto
  show ?thesis
  proof (cases "P c")
    case True
    then have "{k. c \<le> k \<and> P k} = insert c {k. Suc c \<le> k \<and> P k}"
      by (auto simp: Suc_le_eq le_less)
    with True fin show ?thesis
      by simp
  next
    case False
    then have "{k. c \<le> k \<and> P k} = {k. Suc c \<le> k \<and> P k}"
      by (auto simp: Suc_le_eq le_less)
    with False show ?thesis
      by simp
  qed
qed

termination next_free
proof (relation "measure (\<lambda>(fs, base, ext, counter, p).
          card {k. counter \<le> k \<and> path_exists fs (base @ ''_'' @ str_nat k @ ext)}
          + (if path_exists fs p then 1 else 0))", goal_cases)
  case 1
  show ?case by simp
next
  case (2 fs base ext counter p)
  from card_from_step [OF finite_candidates, of counter fs base ext] 2
  show ?case by simp
qed

declare next_free.simps [simp del]

section \<open>Properties of the free-name search\<close>









section \<open>Properties of the extractor\<close>

lemma page_links_eq:
  "page_links annots links = links @ map (\<lambda>a. the (uri a)) (filter has_uri_target annots)"
  by (induction annots arbitrary: links) (auto simp: has_uri_target_def split: option.splits)

lemma doc_links_eq:
  "doc_links doc links = links @ map (\<lambda>a. the (uri a)) (filter has_uri_target (concat doc))"
  by (induction doc arbitrary: links) (simp_all add: page_links_eq)

section \<open>Properties of the download loop\<close>






lemma download_link_status:
  assumes "\<not> is_mailto lnk" "is_http lnk" "http_get e (requests st) lnk = Returned r"
    and "status r \<noteq> 200"
  shows "download_link e download_folder i lnk (st, failed)
         = (st\<lparr>requests := requests st @ [lnk]\<rparr>,
            failed @ [failed_entry lnk (Some (status r)) (''Status '' @ str_nat (status r))])"
  using assms by (simp add: download_link_def)









text \<open>The two variants, link by link and over the whole list.\<close>

lemma download_link_copy_filter:
  "download_link_copy e download_folder i lnk (st, filter (\<lambda>f. status_code f \<noteq> Some 401) failed)
   = (fst (download_link e download_folder i lnk (st, failed)),
      filter (\<lambda>f. status_code f \<noteq> Some 401) (snd (download_link e download_folder i lnk (st, failed))))"
  by (simp add: download_link_def download_link_copy_def failed_entry_def Let_def
           split: get_result.splits prod.splits option.splits)

lemma download_loop_copy_filter:
  "download_loop_copy e download_folder i links (st, filter (\<lambda>f. status_code f \<noteq> Some 401) failed)
   = (fst (download_loop e download_folder i links (st, failed)),
      filter (\<lambda>f. status_code f \<noteq> Some 401) (snd (download_loop e download_folder i links (st, failed))))"
proof (induction links arbitrary: i st failed)
  case Nil
  show ?case by simp
next
  case (Cons l ls)
  obtain st1 failed1 where step: "download_link e download_folder i l (st, failed) = (st1, failed1)"
    by (cases "download_link e download_folder i l (st, failed)")
  with download_link_copy_filter [of e download_folder i l st failed]
  have "download_link_copy e download_folder i l (st, filter (\<lambda>f. status_code f \<noteq> Some 401) failed)
        = (st1, filter (\<lambda>f. status_code f \<noteq> Some 401) failed1)"
    by simp
  with Cons.IH [of "i + 1" st1 failed1] step show ?case
    by simp
qed

section \<open>Properties of the report phase\<close>


section \<open>A sample environment\<close>

text \<open>
  Three hosts answer 200 with a small body, one answers 401, one times out, every
  other link is a 404. Renaming onto \<^verbatim>\<open>out/locked\<close> is refused; \<^verbatim>\<open>src/bad.pdf\<close> does not
  parse.
\<close>

definition ok_response :: "string \<Rightarrow> response" where
  "ok_response body =
     \<lparr>status = 200, content_disposition = None, content_type = Some ''text/plain'',
      chunks = [body], stream_error = None\<rparr>"

definition status_response :: "nat \<Rightarrow> response" where
  "status_response s =
     \<lparr>status = s, content_disposition = None, content_type = None, chunks = [], stream_error = None\<rparr>"

definition example_get :: "string list \<Rightarrow> string \<Rightarrow> get_result" where
  "example_get history l =
     (if l = ''https://good.example/file.txt'' then Returned (ok_response ''hello'')
      else if l = ''https://a.example/report.pdf'' then Returned (ok_response ''first'')
      else if l = ''https://b.example/report.pdf'' then Returned (ok_response ''second'')
      else if l = ''https://locked.example/secret.pdf'' then Returned (status_response 401)
      else if l = ''https://down.example/x.pdf'' then Raised ''Connection timed out''
      else Returned (status_response 404))"

definition example_doc :: "annotation list list" where
  "example_doc =
     [[\<lparr>kind = 2, uri = Some ''mailto:x@y.com''\<rparr>,
       \<lparr>kind = 2, uri = Some ''https://good.example/file.txt''\<rparr>],
      [\<lparr>kind = 1, uri = None\<rparr>,
       \<lparr>kind = 2, uri = Some ''https://bad.example/nofile''\<rparr>]]"

definition example_open :: "string \<Rightarrow> string + annotation list list" where
  "example_open p =
     (if p = ''src/A.pdf'' then Inr example_doc
      else if p = ''src/empty.pdf'' then Inr [[\<lparr>kind = 1, uri = None\<rparr>]]
      else if p = ''src/locked.pdf'' then Inr [[\<lparr>kind = 2, uri = Some ''https://bad.example/nofile''\<rparr>]]
      else Inl ''cannot open broken document'')"

definition example_env :: env where
  "example_env =
     \<lparr>http_get = example_get,
      open_error = (\<lambda>fs p. None),
      rename_error = (\<lambda>fs src dst. if dst = ''out/locked'' then Some ''Permission denied'' else None),
      fitz_open = example_open,
      glob = (\<lambda>fs pattern. [''src/A.pdf'']),
      guess_extension = (\<lambda>t. if t = ''text/plain'' then Some ''.txt'' else None),
      url_filename = basename,
      isalnum_non_ascii = (\<lambda>c. False)\<rparr>"

definition example_state :: state where
  "example_state =
     \<lparr>files = [(''src/A.pdf'', File (Bytes ''%PDF-A'')), (''src/bad.pdf'', File (Bytes ''garbage'')),
               (''src/empty.pdf'', File (Bytes ''%PDF-E'')), (''src/locked.pdf'', File (Bytes ''%PDF-L''))],
      requests = []\<rparr>"




section \<open>The summary count\<close>

text \<open>
  C1. The claim asks that the count in a document's summary row be the number of links
  downloaded with status 200, skipped links not counting. The driver computes it as
  \<^verbatim>\<open>len(hyperlinks) - len(failed)\<close>, which also counts every skipped link. The document
  below has a \<^verbatim>\<open>mailto:\<close> link, a link answered with 200 and a link answered with 404:
  two requests are made, one file is saved, one failure is logged, and the summary row
  says 2.
\<close>

theorem summary_count_includes_skipped_links:
  "map_of (files (process_pdf_folder example_env ''src'' ''out'' example_state)) ''out/file_summary.csv''
     = Some (File (SummaryCsv [\<lparr>file_number = 1, file_name = ''A.pdf'', attachments_count = 2\<rparr>]))
   \<and> requests (process_pdf_folder example_env ''src'' ''out'' example_state)
     = [''https://good.example/file.txt'', ''https://bad.example/nofile'']
   \<and> filter (\<lambda>(p, n). n \<noteq> Dir \<and> prefix ''out/A/'' p)
        (files (process_pdf_folder example_env ''src'' ''out'' example_state))
     = [(''out/A/file.txt'', File (Bytes ''hello''))]
   \<and> map_of (files (process_pdf_folder example_env ''src'' ''out'' example_state)) ''out/failed_downloads.csv''
     = Some (File (FailedCsv
         [\<lparr>link = ''https://bad.example/nofile'', status_code = Some 404, error = ''Status 404'',
           pdf_file = Some ''A.pdf'', attachments_folder = Some ''out/A''\<rparr>]))"
  by code_simp

section \<open>The two downloader variants\<close>

text \<open>
  C2. The variant of \<^verbatim>\<open>attachment_downloader copy.py\<close> leaves the world in the same state
  as \<^verbatim>\<open>attachment_downloader.py\<close> and returns the same failure entries except those
  with status code 401. For a link whose GET returns a status other than 200, the main
  variant appends an entry with that status code; the copy appends the same entry unless
  the status is 401, in which case it appends nothing.
\<close>

theorem variants_differ_exactly_on_401:
  "fst (download_files_from_links_copy e links download_folder st)
     = fst (download_files_from_links e links download_folder st)
   \<and> snd (download_files_from_links_copy e links download_folder st)
     = filter (\<lambda>f. status_code f \<noteq> Some 401) (snd (download_files_from_links e links download_folder st))
   \<and> (\<not> is_mailto lnk \<and> is_http lnk \<and> http_get e (requests s) lnk = Returned r \<and> status r \<noteq> 200 \<longrightarrow>
        download_link e download_folder i lnk (s, failed)
          = (s\<lparr>requests := requests s @ [lnk]\<rparr>,
             failed @ [failed_entry lnk (Some (status r)) (''Status '' @ str_nat (status r))])
        \<and> download_link_copy e download_folder i lnk (s, failed)
          = (s\<lparr>requests := requests s @ [lnk]\<rparr>,
             if status r = 401 then failed
             else failed @ [failed_entry lnk (Some (status r)) (''Status '' @ str_nat (status r))]))"
proof -
  from download_loop_copy_filter [of e download_folder 0 links "makedirs download_folder st" "[]"]
  have whole: "download_files_from_links_copy e links download_folder st
               = (fst (download_files_from_links e links download_folder st),
                  filter (\<lambda>f. status_code f \<noteq> Some 401)
                    (snd (download_files_from_links e links download_folder st)))"
    by (simp add: download_files_from_links_def download_files_from_links_copy_def)
  have single: "download_link_copy e download_folder i lnk (s, failed)
                = (s\<lparr>requests := requests s @ [lnk]\<rparr>,
                   if status r = 401 then failed
                   else failed @ [failed_entry lnk (Some (status r)) (''Status '' @ str_nat (status r))])"
    if "\<not> is_mailto lnk" "is_http lnk" "http_get e (requests s) lnk = Returned r" "status r \<noteq> 200"
    using that by (simp add: download_link_copy_def)
  show ?thesis
    using whole single by (simp add: download_link_status)
qed

theorem variants_differ_exactly_on_401_witness:
  "\<not> is_mailto ''https://locked.example/secret.pdf''
   \<and> is_http ''https://locked.example/secret.pdf''
   \<and> http_get example_env (requests example_state) ''https://locked.example/secret.pdf''
       = Returned (status_response 401)
   \<and> status (status_response 401) \<noteq> 200
   \<and> snd (download_files_from_links_copy example_env
            [''https://locked.example/secret.pdf'', ''https://bad.example/nofile''] ''out/pdf_1'' example_state)
       = filter (\<lambda>f. status_code f \<noteq> Some 401)
           (snd (download_files_from_links example_env
                   [''https://locked.example/secret.pdf'', ''https://bad.example/nofile''] ''out/pdf_1''
                   example_state))
   \<and> download_link_copy example_env ''out/pdf_1'' 0 ''https://locked.example/secret.pdf'' (example_state, [])
       = (example_state\<lparr>requests := requests example_state @ [''https://locked.example/secret.pdf'']\<rparr>, [])
   \<and> snd (download_files_from_links example_env
            [''https://locked.example/secret.pdf'', ''https://bad.example/nofile''] ''out/pdf_1'' example_state)
       = [failed_entry ''https://locked.example/secret.pdf'' (Some 401) ''Status 401'',
          failed_entry ''https://bad.example/nofile'' (Some 404) ''Status 404'']"
proof -
  have h1: "\<not> is_mailto ''https://locked.example/secret.pdf''"
    by code_simp
  have h2: "is_http ''https://locked.example/secret.pdf''"
    by code_simp
  have h3: "http_get example_env (requests example_state) ''https://locked.example/secret.pdf''
            = Returned (status_response 401)"
    by (simp add: example_env_def example_get_def)
  have h4: "status (status_response 401) \<noteq> 200" "status (status_response 401) = 401"
    by (simp_all add: status_response_def)
  have ev: "snd (download_files_from_links example_env
                   [''https://locked.example/secret.pdf'', ''https://bad.example/nofile''] ''out/pdf_1''
                   example_state)
            = [failed_entry ''https://locked.example/secret.pdf'' (Some 401) ''Status 401'',
               failed_entry ''https://bad.example/nofile'' (Some 404) ''Status 404'']"
    by code_simp
  from variants_differ_exactly_on_401 [of example_env
      "[''https://locked.example/secret.pdf'', ''https://bad.example/nofile'']" "''out/pdf_1''"
      example_state "''https://locked.example/secret.pdf''" example_state "status_response 401" 0 "[]"]
    h1 h2 h3 h4 ev
  show ?thesis
    by simp
qed

section \<open>Name collisions\<close>



section \<open>Link extraction\<close>

text \<open>
  C4. For a PDF that opens, the extractor returns the URIs of exactly the link
  annotations that have a URI target, in page order and within a page in annotation
  order; their number is the number of such annotations, and annotations without a URI
  target contribute nothing.
\<close>

theorem extract_returns_uri_targets_in_order:
  assumes "fitz_open e pdf_path = Inr doc"
  shows "extract_hyperlinks_from_pdf e pdf_path
           = Inr (map (\<lambda>a. the (uri a)) (filter has_uri_target (concat doc)))
       \<and> (case extract_hyperlinks_from_pdf e pdf_path of
            Inl msg \<Rightarrow> False
          | Inr links \<Rightarrow> length links = length (filter has_uri_target (concat doc)))"
  using assms by (simp add: extract_hyperlinks_from_pdf_def doc_links_eq)

theorem extract_returns_uri_targets_in_order_witness:
  "fitz_open example_env ''src/A.pdf'' = Inr example_doc
   \<and> extract_hyperlinks_from_pdf example_env ''src/A.pdf''
       = Inr (map (\<lambda>a. the (uri a)) (filter has_uri_target (concat example_doc)))
   \<and> map (\<lambda>a. the (uri a)) (filter has_uri_target (concat example_doc))
       = [''mailto:x@y.com'', ''https://good.example/file.txt'', ''https://bad.example/nofile'']"
proof -
  have h: "fitz_open example_env ''src/A.pdf'' = Inr example_doc"
    by (simp add: example_env_def example_open_def)
  have ev: "map (\<lambda>a. the (uri a)) (filter has_uri_target (concat example_doc))
            = [''mailto:x@y.com'', ''https://good.example/file.txt'', ''https://bad.example/nofile'']"
    by code_simp
  from extract_returns_uri_targets_in_order [OF h] h ev show ?thesis
    by blast
qed

section \<open>Failure entries of the downloader\<close>



section \<open>The driver\<close>

text \<open>
  C6. If a PDF that is still on disk fails to open or parse, the driver appends a
  summary row for it with count 0, appends no failure entry, leaves the file system and
  the request log as they were, and goes on with the next PDF.
\<close>

theorem open_failure_gives_zero_row_and_continues:
  assumes "path_exists (files st) pdf"
    and "fitz_open e pdf = Inl msg"
  shows "process_loop e destination_folder i (pdf # pdfs) (st, file_summary, all_failed)
         = process_loop e destination_folder (i + 1) pdfs
             (st,
              file_summary @ [\<lparr>file_number = i + 1, file_name = basename pdf, attachments_count = 0\<rparr>],
              all_failed)"
  using assms by (simp add: process_pdf_def extract_hyperlinks_from_pdf_def)

theorem open_failure_gives_zero_row_and_continues_witness:
  "path_exists (files example_state) ''src/bad.pdf''
   \<and> fitz_open example_env ''src/bad.pdf'' = Inl ''cannot open broken document''
   \<and> process_loop example_env ''out'' 0 (''src/bad.pdf'' # [''src/empty.pdf'']) (example_state, [], [])
     = process_loop example_env ''out'' (0 + 1) [''src/empty.pdf'']
         (example_state,
          [] @ [\<lparr>file_number = 0 + 1, file_name = basename ''src/bad.pdf'', attachments_count = 0\<rparr>],
          [])
   \<and> process_loop example_env ''out'' 0 [''src/bad.pdf'', ''src/empty.pdf''] (example_state, [], [])
     = (example_state,
        [\<lparr>file_number = 1, file_name = ''bad.pdf'', attachments_count = 0\<rparr>,
         \<lparr>file_number = 2, file_name = ''empty.pdf'', attachments_count = 0\<rparr>],
        [])"
proof -
  have h1: "path_exists (files example_state) ''src/bad.pdf''"
    by code_simp
  have h2: "fitz_open example_env ''src/bad.pdf'' = Inl ''cannot open broken document''"
    by (simp add: example_env_def example_open_def)
  have ev: "process_loop example_env ''out'' 0 [''src/bad.pdf'', ''src/empty.pdf''] (example_state, [], [])
            = (example_state,
               [\<lparr>file_number = 1, file_name = ''bad.pdf'', attachments_count = 0\<rparr>,
                \<lparr>file_number = 2, file_name = ''empty.pdf'', attachments_count = 0\<rparr>],
               [])"
    by code_simp
  from open_failure_gives_zero_row_and_continues [OF h1 h2, of "''out''" 0 "[''src/empty.pdf'']" "[]" "[]"]
    h1 h2 ev
  show ?thesis
    by blast
qed





text \<open>
  C9. For a PDF on disk from which no hyperlink is extracted, the driver appends a
  summary row with count 0 and changes nothing else: the file system is as before, so
  no subfolder is created, no request is made and no failure entry is appended.
\<close>

theorem no_links_no_subfolder:
  assumes "path_exists (files st) pdf"
    and "extract_hyperlinks_from_pdf e pdf = Inr []"
  shows "process_pdf e destination_folder i pdf (st, file_summary, all_failed)
         = (st,
            file_summary @ [\<lparr>file_number = i + 1, file_name = basename pdf, attachments_count = 0\<rparr>],
            all_failed)"
  using assms by (simp add: process_pdf_def)

theorem no_links_no_subfolder_witness:
  "path_exists (files example_state) ''src/empty.pdf''
   \<and> extract_hyperlinks_from_pdf example_env ''src/empty.pdf'' = Inr []
   \<and> process_pdf example_env ''out'' 0 ''src/empty.pdf'' (example_state, [], [])
     = (example_state,
        [] @ [\<lparr>file_number = 0 + 1, file_name = basename ''src/empty.pdf'', attachments_count = 0\<rparr>],
        [])
   \<and> \<not> path_exists (files (fst (process_pdf example_env ''out'' 0 ''src/empty.pdf'' (example_state, [], []))))
         ''out/pdf_1''"
proof -
  have h1: "path_exists (files example_state) ''src/empty.pdf''"
    by code_simp
  have h2: "extract_hyperlinks_from_pdf example_env ''src/empty.pdf'' = Inr []"
    by code_simp
  have ev: "\<not> path_exists (files (fst (process_pdf example_env ''out'' 0 ''src/empty.pdf''
                                          (example_state, [], [])))) ''out/pdf_1''"
    by code_simp
  from no_links_no_subfolder [OF h1 h2, of "''out''" 0 "[]" "[]"] h1 h2 ev show ?thesis
    by blast
qed

section \<open>The sanitizer\<close>

text \<open>
  C10 (as amended). Let \<open>ext\<close> be the extension that \<^verbatim>\<open>os.path.splitext\<close> splits off the
  input after the characters outside the valid set have been removed. If \<open>ext\<close> is at
  most \<open>max_length\<close> long, then \<open>sanitize_filename\<close> returns a string of length at most
  \<open>max_length\<close> that ends with \<open>ext\<close> and contains only ASCII letters, digits,
  \<open>-\<close>, \<open>_\<close>, \<open>.\<close>, \<open>(\<close>, \<open>)\<close> and space.
\<close>

theorem sanitize_filename_bounded:
  assumes "int (length (snd (splitext (filter (\<lambda>c. c \<in> set valid_chars) filename)))) \<le> max_length"
  shows "int (length (sanitize_filename filename max_length)) \<le> max_length
       \<and> suffix (snd (splitext (filter (\<lambda>c. c \<in> set valid_chars) filename)))
                (sanitize_filename filename max_length)
       \<and> set (sanitize_filename filename max_length) \<subseteq> set valid_chars"
proof -
  define cleaned where "cleaned = filter (\<lambda>c. c \<in> set valid_chars) filename"
  obtain name ext where sp: "splitext cleaned = (name, ext)" and ne: "name @ ext = cleaned"
    by (rule splitext_cases)
  have ext_le: "int (length ext) \<le> max_length"
    using assms sp by (simp add: cleaned_def)
  have valid: "set cleaned \<subseteq> set valid_chars"
    by (auto simp: cleaned_def)
  show ?thesis
  proof (cases "int (length cleaned) > max_length")
    case True
    then have res: "sanitize_filename filename max_length
                    = slice_to name (max_length - int (length ext)) @ ext"
      using sp by (simp add: sanitize_filename_def cleaned_def [symmetric])
    have "int (length (slice_to name (max_length - int (length ext)))) \<le> max_length - int (length ext)"
      using ext_le by (intro length_slice_to) simp
    then have len: "int (length (sanitize_filename filename max_length)) \<le> max_length"
      by (simp add: res)
    have "set (slice_to name (max_length - int (length ext))) \<subseteq> set name"
      by (rule set_slice_to)
    moreover have "set name \<union> set ext \<subseteq> set valid_chars"
      using valid ne [symmetric] by simp
    ultimately have chars: "set (sanitize_filename filename max_length) \<subseteq> set valid_chars"
      by (auto simp: res)
    show ?thesis
      using len chars sp by (simp add: res cleaned_def [symmetric] suffix_def)
  next
    case False
    then have res: "sanitize_filename filename max_length = cleaned"
      using sp by (simp add: sanitize_filename_def cleaned_def [symmetric])
    show ?thesis
      using False valid sp ne by (auto simp: res cleaned_def [symmetric] suffix_def)
  qed
qed


theorem sanitize_filename_bounded_witness:
  "int (length (snd (splitext (filter (\<lambda>c. c \<in> set valid_chars) ''report: final?.pdf'')))) \<le> 10
   \<and> int (length (sanitize_filename ''report: final?.pdf'' 10)) \<le> 10
   \<and> suffix (snd (splitext (filter (\<lambda>c. c \<in> set valid_chars) ''report: final?.pdf'')))
            (sanitize_filename ''report: final?.pdf'' 10)
   \<and> set (sanitize_filename ''report: final?.pdf'' 10) \<subseteq> set valid_chars
   \<and> sanitize_filename ''report: final?.pdf'' 10 = ''report.pdf''"
proof -
  have h: "int (length (snd (splitext (filter (\<lambda>c. c \<in> set valid_chars) ''report: final?.pdf'')))) \<le> 10"
    by code_simp
  have ev: "sanitize_filename ''report: final?.pdf'' 10 = ''report.pdf''"
    by code_simp
  from sanitize_filename_bounded [OF h] h ev show ?thesis
    by blast
qed

text \<open>
  C10 as stated takes the extension of the input itself. The input \<^verbatim>\<open>a.p?df\<close> has the
  extension \<^verbatim>\<open>.p?df\<close>, of length 5, and is sanitized to \<^verbatim>\<open>a.pdf\<close>, which does not end
  with it.
\<close>

theorem sanitize_filename_input_extension_counterexample:
  "int (length (snd (splitext ''a.p?df''))) \<le> 150
   \<and> \<not> suffix (snd (splitext ''a.p?df'')) (sanitize_filename ''a.p?df'' 150)"
  by code_simp

text \<open>
  The length bound fails as well when the extension grows by sanitizing: \<^verbatim>\<open>a.b/cd\<close> has
  no extension, its sanitized form \<^verbatim>\<open>a.bcd\<close> has the extension \<^verbatim>\<open>.bcd\<close>, and with
  \<open>max_length = 3\<close> the result is 4 characters long.
\<close>

lemma sanitize_filename_overlong_example:
  "snd (splitext ''a.b/cd'') = [] \<and> sanitize_filename ''a.b/cd'' 3 = ''.bcd''"
  by code_simp


end
